theory Spec2Isabelle
  imports Complex_Main "HOL-Library.Sublist"
begin

section \<open>Values: Python strings, JSON-like objects, ordered dictionaries\<close>

text \<open>
  A Python \<^verbatim>\<open>str\<close> is the list of its Unicode code points: the source's literals hold
  U+2019, U+2013 and U+2026, and its regular expression tests single code points.
  \<open>str\<close> turns an ASCII literal into such a list. Python's \<^verbatim>\<open>a in b\<close> on two strings is
  \<^const>\<open>sublist\<close> (a contiguous occurrence), \<^verbatim>\<open>a.startswith\<close> is \<^const>\<open>prefix\<close>.
\<close>

type_synonym pystr = "nat list"

abbreviation str :: "string \<Rightarrow> pystr" where
  "str cs \<equiv> map of_char cs"

text \<open>
  The objects that travel between the agents are dictionaries, lists, strings, numbers,
  booleans and \<^verbatim>\<open>None\<close>. A \<^verbatim>\<open>dict\<close> keeps its insertion order, so it is an association
  list (looked up from the front; built only through \<open>dict_set\<close>, which keeps keys unique).
\<close>

datatype json =
    JNone
  | JBool bool
  | JNum real
  | JStr pystr
  | JList "json list"
  | JDict "(pystr \<times> json) list"

type_synonym 'v dict = "(pystr \<times> 'v) list"

definition dict_get :: "pystr \<Rightarrow> 'v dict \<Rightarrow> 'v option" where
  "dict_get k d = map_of d k"

definition has_key :: "pystr \<Rightarrow> 'v dict \<Rightarrow> bool" where
  "has_key k d = (k \<in> set (map fst d))"

definition dict_values :: "'v dict \<Rightarrow> 'v list" where
  "dict_values d = map snd d"

fun dict_set :: "pystr \<Rightarrow> 'v \<Rightarrow> 'v dict \<Rightarrow> 'v dict" where
  "dict_set k v [] = [(k, v)]"
| "dict_set k v (e # d) = (if fst e = k then (k, v) # d else e # dict_set k v d)"

text \<open>\<^verbatim>\<open>d.get(k)\<close>: the value, \<^verbatim>\<open>None\<close> when the key is missing.\<close>

definition get :: "pystr \<Rightarrow> json dict \<Rightarrow> json" where
  "get k d = (case dict_get k d of Some v \<Rightarrow> v | None \<Rightarrow> JNone)"

text \<open>Python's truth value of an object, as \<^verbatim>\<open>if t:\<close> tests it.\<close>

fun truthy :: "json \<Rightarrow> bool" where
  "truthy JNone = False"
| "truthy (JBool b) = b"
| "truthy (JNum x) = (x \<noteq> 0)"
| "truthy (JStr s) = (s \<noteq> [])"
| "truthy (JList xs) = (xs \<noteq> [])"
| "truthy (JDict kvs) = (kvs \<noteq> [])"

datatype error = ValueError | KeyError | IndexError | TypeError | ValidationError

section \<open>routing\_agent.py: discovery and routing\<close>

record agent_skill =
  skill_id :: pystr
  skill_name :: pystr
  skill_description :: pystr
  skill_tags :: "pystr list option"
  skill_examples :: "pystr list option"

record agent_card =
  card_url :: pystr
  card_name :: pystr
  card_description :: pystr
  card_skills :: "agent_skill list"

text \<open>
  What one \<^verbatim>\<open>session.get\<close> gives: \<open>None\<close> when the call itself raises (network error,
  timeout); otherwise a response, of which \<^verbatim>\<open>_fetch_card\<close> uses whether
  \<^verbatim>\<open>raise_for_status()\<close> passes and what \<^verbatim>\<open>AgentCard.model_validate(res.json())\<close> returns
  (\<open>None\<close> when the body is not JSON or not a card).
\<close>

record response =
  status_ok :: bool
  validated_card :: "agent_card option"

text \<open>
  The world outside the orchestrator, as one request sees it.
  \<^item> \<open>session\<close>: the HTTP session of a discovery.
  \<^item> \<open>time_stream\<close>, \<open>time_discovered\<close>: the event loop's clock when \<^verbatim>\<open>stream\<close> starts and
    when a discovery completes. The clock's values are floats; each is held as the real
    number it stands for. Comparing two of them is exact, subtracting them rounds:
    \<open>float_sub\<close> is that subtraction, which this theory does not reproduce.
  \<^item> \<open>model_reply\<close>: the language model's reply to the prompt built from the cards and
    the question.
  \<^item> \<open>create_client\<close>: \<open>Some err\<close> when \<^verbatim>\<open>client_factory.create(card)\<close> raises \<open>err\<close>.
  \<^item> \<open>send_message\<close>: the events that the helper's client yields, and how its stream
    ends: \<open>None\<close> when it closes or breaks with one of the transport errors that
    \<^verbatim>\<open>stream\<close> catches, \<open>Some err\<close> when it raises another error.
  \<^item> \<open>lower\<close>: Python's \<^verbatim>\<open>str.lower\<close> (the Unicode case tables are not reproduced;
    \<open>ascii_lower\<close> below is \<^verbatim>\<open>str.lower\<close> on ASCII text).
\<close>

record env =
  session :: "pystr \<Rightarrow> response option"
  time_stream :: real
  time_discovered :: real
  float_sub :: "real \<Rightarrow> real \<Rightarrow> real"
  model_reply :: "agent_card list \<Rightarrow> pystr \<Rightarrow> pystr"
  create_client :: "agent_card \<Rightarrow> error option"
  send_message :: "agent_card \<Rightarrow> pystr \<Rightarrow> json dict list \<times> error option"
  lower :: "pystr \<Rightarrow> pystr"

definition ascii_lower :: "pystr \<Rightarrow> pystr" where
  "ascii_lower s = map (\<lambda>c. if 65 \<le> c \<and> c \<le> 90 then c + 32 else c) s"

record routing_agent =
  peer_urls :: "pystr list"
  cards :: "agent_card dict"
  last_discovery :: real

definition DISCOVERY_INTERVAL :: real where
  "DISCOVERY_INTERVAL = 600"

definition fetch_card :: "(pystr \<Rightarrow> response option) \<Rightarrow> pystr \<Rightarrow> agent_card option" where
  "fetch_card s url =
     (case s (url @ str ''/.well-known/agent-card.json'') of
        None \<Rightarrow> None
      | Some res \<Rightarrow> if status_ok res then validated_card res else None)"

text \<open>\<^verbatim>\<open>{c.url: c for c in found if c}\<close>, filling the dictionary from left to right.\<close>

fun cards_of :: "agent_card option list \<Rightarrow> agent_card dict \<Rightarrow> agent_card dict" where
  "cards_of [] d = d"
| "cards_of (None # found) d = cards_of found d"
| "cards_of (Some c # found) d = cards_of found (dict_set (card_url c) c d)"

definition discover :: "env \<Rightarrow> routing_agent \<Rightarrow> routing_agent" where
  "discover e self =
     (let found = map (fetch_card (session e)) (peer_urls self)
      in self\<lparr>cards := cards_of found [], last_discovery := time_discovered e\<rparr>)"

subsection \<open>Stage 1: the URL in the model's reply\<close>

text \<open>
  \<^verbatim>\<open>re.search(r"https?://[^\s\"'<>]+", reply.content)\<close>. The class \<^verbatim>\<open>\s\<close> of a \<^verbatim>\<open>str\<close> pattern is
  Unicode white space; the other excluded code points are the two quotes and the angle
  brackets. At one position the pattern matches \<^verbatim>\<open>https://\<close> or \<^verbatim>\<open>http://\<close> and then the
  longest non-empty run of allowed code points; the search returns the leftmost match.
\<close>

definition py_isspace :: "nat \<Rightarrow> bool" where
  "py_isspace c \<longleftrightarrow>
     (9 \<le> c \<and> c \<le> 13) \<or> (28 \<le> c \<and> c \<le> 32) \<or> c = 133 \<or> c = 160 \<or> c = 5760 \<or>
     (8192 \<le> c \<and> c \<le> 8202) \<or> c = 8232 \<or> c = 8233 \<or> c = 8239 \<or> c = 8287 \<or> c = 12288"

definition url_char :: "nat \<Rightarrow> bool" where
  "url_char c \<longleftrightarrow> \<not> py_isspace c \<and> c \<noteq> 34 \<and> c \<noteq> 39 \<and> c \<noteq> 60 \<and> c \<noteq> 62"

definition match_url :: "pystr \<Rightarrow> pystr option" where
  "match_url s =
     (if prefix (str ''https://'') s \<and> takeWhile url_char (drop 8 s) \<noteq> []
      then Some (str ''https://'' @ takeWhile url_char (drop 8 s))
      else if prefix (str ''http://'') s \<and> takeWhile url_char (drop 7 s) \<noteq> []
      then Some (str ''http://'' @ takeWhile url_char (drop 7 s))
      else None)"

fun re_search_url :: "pystr \<Rightarrow> pystr option" where
  "re_search_url [] = None"
| "re_search_url (c # cs) =
     (case match_url (c # cs) of Some m \<Rightarrow> Some m | None \<Rightarrow> re_search_url cs)"

text \<open>\<^verbatim>\<open>url = match.group(0) if match else "NONE"\<close>\<close>

definition url_of_reply :: "pystr \<Rightarrow> pystr" where
  "url_of_reply content = (case re_search_url content of Some m \<Rightarrow> m | None \<Rightarrow> str ''NONE'')"

definition choose_agent :: "env \<Rightarrow> agent_card dict \<Rightarrow> pystr \<Rightarrow> pystr" where
  "choose_agent e cs question = url_of_reply (model_reply e (dict_values cs) question)"

subsection \<open>Stage 2: the fallback by skill ids and tags\<close>

text \<open>The inner loop of \<^verbatim>\<open>_fallback_by_tags\<close>: does some skill of the card return?\<close>

fun skills_match :: "(pystr \<Rightarrow> pystr) \<Rightarrow> agent_skill list \<Rightarrow> pystr \<Rightarrow> bool" where
  "skills_match lw [] q = False"
| "skills_match lw (sk # sks) q =
     (if skill_id sk \<noteq> [] \<and> sublist (lw (skill_id sk)) q then True
      else if list_ex (\<lambda>tag. sublist (lw tag) q)
                (case skill_tags sk of None \<Rightarrow> [] | Some ts \<Rightarrow> ts) then True
      else skills_match lw sks q)"

fun fallback_cards :: "(pystr \<Rightarrow> pystr) \<Rightarrow> agent_card list \<Rightarrow> pystr \<Rightarrow> pystr" where
  "fallback_cards lw [] q = str ''NONE''"
| "fallback_cards lw (c # cs) q =
     (if skills_match lw (card_skills c) q then card_url c else fallback_cards lw cs q)"

definition fallback_by_tags :: "(pystr \<Rightarrow> pystr) \<Rightarrow> agent_card dict \<Rightarrow> pystr \<Rightarrow> pystr" where
  "fallback_by_tags lw cs q = fallback_cards lw (dict_values cs) q"

subsection \<open>stream\<close>

text \<open>
  The two stages (\<^verbatim>\<open>helper_url\<close> after the \<^verbatim>\<open>if\<close> that calls the fallback), and the card
  that the next \<^verbatim>\<open>if\<close> lets through.
\<close>

definition helper_url :: "env \<Rightarrow> agent_card dict \<Rightarrow> pystr \<Rightarrow> pystr" where
  "helper_url e cs query =
     (let u = choose_agent e cs query
      in if u = str ''NONE'' \<or> \<not> has_key u cs
         then fallback_by_tags (lower e) cs (lower e query)
         else u)"

definition chosen_card :: "env \<Rightarrow> agent_card dict \<Rightarrow> pystr \<Rightarrow> agent_card option" where
  "chosen_card e cs query =
     (let u = helper_url e cs query
      in if u = str ''NONE'' \<or> \<not> has_key u cs then None else dict_get u cs)"

definition no_helper_text :: pystr where
  "no_helper_text =
     str ''I'' @ [8217] @ str ''m sorry '' @ [8211] @
     str '' none of my helper agents can answer that.''"

definition no_helper_event :: "json dict" where
  "no_helper_event =
     [(str ''is_task_complete'', JBool True),
      (str ''require_user_input'', JBool False),
      (str ''content'', JStr no_helper_text)]"

definition asking_text :: "agent_card \<Rightarrow> pystr" where
  "asking_text c = str ''Asking **'' @ card_name c @ str ''**'' @ [8230]"

definition asking_event :: "agent_card \<Rightarrow> json dict" where
  "asking_event c =
     [(str ''is_task_complete'', JBool False),
      (str ''require_user_input'', JBool False),
      (str ''content'', JStr (asking_text c))]"

text \<open>The discovery at the start of \<^verbatim>\<open>stream\<close>, when the cards are older than the interval.\<close>

definition refresh_if_stale :: "env \<Rightarrow> routing_agent \<Rightarrow> routing_agent" where
  "refresh_if_stale e self =
     (if float_sub e (time_stream e) (last_discovery self) > DISCOVERY_INTERVAL
      then discover e self else self)"

text \<open>
  \<^verbatim>\<open>stream\<close> as a generator: the list of what it yields, the error it raises after the
  last of them (\<open>None\<close> when it returns), and the agent as the call leaves it. The client
  is built before the first event of a chosen helper is yielded, so an error of
  \<^verbatim>\<open>client_factory.create\<close> leaves nothing yielded.
\<close>

definition stream ::
  "env \<Rightarrow> routing_agent \<Rightarrow> pystr \<Rightarrow> pystr \<Rightarrow>
     (json dict list \<times> error option) \<times> routing_agent" where
  "stream e self query session_id =
     (let self1 = refresh_if_stale e self
      in case chosen_card e (cards self1) query of
           None \<Rightarrow> (([no_helper_event], None), self1)
         | Some c \<Rightarrow>
             (case create_client e c of
                Some err \<Rightarrow> (([], Some err), self1)
              | None \<Rightarrow>
                  (case send_message e c query of
                     (evs, tail) \<Rightarrow> ((asking_event c # evs, tail), self1))))"

section \<open>executor.py: the relay\<close>

record task =
  task_id :: pystr
  context_id :: pystr

datatype task_state = working | completed

text \<open>\<^verbatim>\<open>new_agent_text_message(text, context_id, task_id)\<close>, without its fresh message id.\<close>

datatype message = AgentTextMessage pystr pystr pystr

text \<open>
  A status is either built by the executor from a state and a message, or it is the
  helper's own status object as \<^verbatim>\<open>TaskStatus.model_validate\<close> accepted it.
\<close>

datatype task_status = TaskStatus task_state message | ValidatedStatus json

text \<open>An artifact is held as its \<^verbatim>\<open>model_dump()\<close>.\<close>

record artifact_update =
  au_taskId :: pystr
  au_contextId :: pystr
  artifact :: json
  append :: bool
  lastChunk :: bool

record status_update =
  su_taskId :: pystr
  su_contextId :: pystr
  status :: task_status
  final :: bool

text \<open>What \<^verbatim>\<open>q.enqueue_event\<close> receives.\<close>

datatype event =
    TaskEvent task
  | TaskArtifactUpdateEvent artifact_update
  | TaskStatusUpdateEvent status_update

text \<open>
  The parts of the A2A library whose code is not in this repository: the validation of a
  helper's artifact and status objects by their pydantic models (\<open>None\<close> when pydantic
  raises; an accepted artifact is returned as its dump), and \<^verbatim>\<open>new_task\<close>, which draws
  fresh ids for the task of a message or raises (as it does for a message without parts
  or with an empty text part).
\<close>

record a2a_lib =
  Artifact_validate :: "json \<Rightarrow> json option"
  TaskStatus_validate :: "json \<Rightarrow> json option"
  new_task :: "json \<Rightarrow> error + task"

text \<open>
  The request: \<^verbatim>\<open>ctx.message\<close> (\<open>None\<close> for \<^verbatim>\<open>None\<close>), what \<^verbatim>\<open>ctx.get_user_input()\<close>
  returns, and \<^verbatim>\<open>ctx.current_task\<close>.
\<close>

record request_context =
  message :: "json option"
  user_input :: pystr
  current_task :: "task option"

text \<open>A text part holds a \<^verbatim>\<open>str\<close>: pydantic rejects every other object.\<close>

definition new_agent_text_message :: "json \<Rightarrow> pystr \<Rightarrow> pystr \<Rightarrow> error + message" where
  "new_agent_text_message text cid tid =
     (case text of JStr s \<Rightarrow> Inr (AgentTextMessage s cid tid) | _ \<Rightarrow> Inl ValidationError)"

text \<open>The dump of \<^verbatim>\<open>new_text_artifact\<close>'s result, without its fresh artifact id.\<close>

definition new_text_artifact :: "pystr \<Rightarrow> pystr \<Rightarrow> json \<Rightarrow> error + json" where
  "new_text_artifact nm descr text =
     (case text of
        JStr s \<Rightarrow>
          Inr (JDict [(str ''name'', JStr nm), (str ''description'', JStr descr),
                      (str ''parts'',
                       JList [JDict [(str ''kind'', JStr (str ''text'')), (str ''text'', JStr s)]])])
      | _ \<Rightarrow> Inl ValidationError)"

text \<open>\<^verbatim>\<open>x[0]\<close>\<close>

fun index0 :: "json \<Rightarrow> error + json" where
  "index0 (JList []) = Inl IndexError"
| "index0 (JList (a # xs)) = Inr a"
| "index0 (JStr []) = Inl IndexError"
| "index0 (JStr (c # cs)) = Inr (JStr [c])"
| "index0 (JDict kvs) = Inl KeyError"
| "index0 JNone = Inl TypeError"
| "index0 (JBool b) = Inl TypeError"
| "index0 (JNum x) = Inl TypeError"

definition make_artifact_event :: "a2a_lib \<Rightarrow> json dict \<Rightarrow> task \<Rightarrow> error + artifact_update" where
  "make_artifact_event lib d t =
     (case (case dict_get (str ''artifact'') d of
              Some art \<Rightarrow> Inr art
            | None \<Rightarrow> (case dict_get (str ''artifacts'') d of
                         None \<Rightarrow> Inl KeyError
                       | Some arts \<Rightarrow> index0 arts)) of
        Inl err \<Rightarrow> Inl err
      | Inr art \<Rightarrow>
          (case Artifact_validate lib art of
             None \<Rightarrow> Inl ValidationError
           | Some a \<Rightarrow>
               Inr \<lparr>au_taskId = task_id t, au_contextId = context_id t,
                    artifact = a, append = False, lastChunk = True\<rparr>))"

definition make_status_event :: "a2a_lib \<Rightarrow> json dict \<Rightarrow> task \<Rightarrow> error + status_update" where
  "make_status_event lib d t =
     (case dict_get (str ''status'') d of
        None \<Rightarrow> Inl KeyError
      | Some st \<Rightarrow>
          (case TaskStatus_validate lib st of
             None \<Rightarrow> Inl ValidationError
           | Some v \<Rightarrow>
               Inr \<lparr>su_taskId = task_id t, su_contextId = context_id t,
                    status = ValidatedStatus v, final = False\<rparr>))"

text \<open>
  \<^verbatim>\<open>_first_text\<close>. Python's \<^verbatim>\<open>None\<close> is \<open>JNone\<close>; the two loops are the functions over the
  values of a dictionary and over the items of a list.
\<close>

fun first_text :: "json \<Rightarrow> json"
  and first_text_values :: "json dict \<Rightarrow> json"
  and first_text_items :: "json list \<Rightarrow> json" where
  "first_text (JDict kvs) =
     (if get (str ''kind'') kvs = JStr (str ''text'') then get (str ''text'') kvs
      else first_text_values kvs)"
| "first_text (JList xs) = first_text_items xs"
| "first_text JNone = JNone"
| "first_text (JBool b) = JNone"
| "first_text (JNum x) = JNone"
| "first_text (JStr s) = JNone"
| "first_text_values [] = JNone"
| "first_text_values (kv # kvs) =
     (let t = first_text (snd kv) in if truthy t then t else first_text_values kvs)"
| "first_text_items [] = JNone"
| "first_text_items (x # xs) =
     (let t = first_text x in if truthy t then t else first_text_items xs)"

text \<open>\<^verbatim>\<open>_enqueue_completed\<close>: the event it enqueues, or the error of building it.\<close>

definition enqueue_completed :: "task \<Rightarrow> json \<Rightarrow> error + event" where
  "enqueue_completed t text =
     (case new_agent_text_message text (context_id t) (task_id t) of
        Inl err \<Rightarrow> Inl err
      | Inr m \<Rightarrow>
          Inr (TaskStatusUpdateEvent
                 \<lparr>su_taskId = task_id t, su_contextId = context_id t,
                  status = TaskStatus completed m, final = True\<rparr>))"

text \<open>
  One pass through the body of the \<^verbatim>\<open>async for\<close> loop of \<^verbatim>\<open>execute\<close>: the events it
  enqueues, and whether it ends in \<^verbatim>\<open>break\<close>, goes on to the next helper event, or raises.
  The helper event is the dictionary \<^verbatim>\<open>ev\<close> of the loop, that is a yielded dictionary as it
  is and a yielded model as its \<^verbatim>\<open>model_dump(exclude_none=True)\<close>.
\<close>

datatype step = Break "event list" | Continue event | Raise "event list" error

definition handle_event :: "a2a_lib \<Rightarrow> task \<Rightarrow> json dict \<Rightarrow> step" where
  "handle_event lib orch_task ev =
     (if has_key (str ''artifact'') ev \<or> has_key (str ''artifacts'') ev then
        (case make_artifact_event lib ev orch_task of
           Inl err \<Rightarrow> Raise [] err
         | Inr artev \<Rightarrow>
             (case enqueue_completed orch_task (first_text (artifact artev)) of
                Inl err \<Rightarrow> Raise [TaskArtifactUpdateEvent artev] err
              | Inr done \<Rightarrow> Break [TaskArtifactUpdateEvent artev, done]))
      else if get (str ''kind'') ev = JStr (str ''task'') \<and> has_key (str ''status'') ev then
        (case make_status_event lib ev orch_task of
           Inl err \<Rightarrow> Raise [] err
         | Inr stat \<Rightarrow> Continue (TaskStatusUpdateEvent stat))
      else if truthy (get (str ''is_task_complete'') ev) then
        (case dict_get (str ''content'') ev of
           None \<Rightarrow> Raise [] KeyError
         | Some answer \<Rightarrow>
             (case new_text_artifact (str ''answer'')
                     (str ''Final answer from downstream agent'') answer of
                Inl err \<Rightarrow> Raise [] err
              | Inr art \<Rightarrow>
                  (let artev = \<lparr>au_taskId = task_id orch_task,
                                au_contextId = context_id orch_task,
                                artifact = art, append = False, lastChunk = True\<rparr>
                   in case enqueue_completed orch_task answer of
                        Inl err \<Rightarrow> Raise [TaskArtifactUpdateEvent artev] err
                      | Inr done \<Rightarrow> Break [TaskArtifactUpdateEvent artev, done])))
      else
        (case dict_get (str ''content'') ev of
           None \<Rightarrow> Raise [] KeyError
         | Some content \<Rightarrow>
             (case new_agent_text_message content (context_id orch_task) (task_id orch_task) of
                Inl err \<Rightarrow> Raise [] err
              | Inr m \<Rightarrow>
                  Continue (TaskStatusUpdateEvent
                              \<lparr>su_taskId = task_id orch_task,
                               su_contextId = context_id orch_task,
                               status = TaskStatus working m, final = False\<rparr>))))"

text \<open>
  The loop over the helper events: what reaches the queue, and the error that ended the
  loop, if one did. After \<^verbatim>\<open>break\<close> or an error the remaining helper events are not read.
\<close>

fun relay :: "a2a_lib \<Rightarrow> task \<Rightarrow> json dict list \<Rightarrow> event list \<times> error option" where
  "relay lib orch_task [] = ([], None)"
| "relay lib orch_task (ev # evs) =
     (case handle_event lib orch_task ev of
        Break out \<Rightarrow> (out, None)
      | Raise out err \<Rightarrow> (out, Some err)
      | Continue x \<Rightarrow>
          (case relay lib orch_task evs of (out, r) \<Rightarrow> (x # out, r)))"

text \<open>
  Does the loop read the helper events to their end? It does when every pass goes on to
  the next event; then the loop asks the generator once more, and an error that the
  generator raises after its last event reaches \<^verbatim>\<open>execute\<close>.
\<close>

fun exhausts :: "a2a_lib \<Rightarrow> task \<Rightarrow> json dict list \<Rightarrow> bool" where
  "exhausts lib orch_task [] = True"
| "exhausts lib orch_task (ev # evs) =
     (case handle_event lib orch_task ev of
        Continue x \<Rightarrow> exhausts lib orch_task evs
      | Break out \<Rightarrow> False
      | Raise out err \<Rightarrow> False)"

text \<open>\<^verbatim>\<open>ctx.current_task or new_task(ctx.message)\<close>\<close>

definition orch_task_of :: "a2a_lib \<Rightarrow> request_context \<Rightarrow> json \<Rightarrow> error + task" where
  "orch_task_of lib ctx msg =
     (case current_task ctx of Some t \<Rightarrow> Inr t | None \<Rightarrow> new_task lib msg)"

text \<open>
  \<^verbatim>\<open>execute\<close>: the events enqueued, the error raised (if any), and the routing agent as the
  request leaves it.
\<close>

definition execute ::
  "a2a_lib \<Rightarrow> env \<Rightarrow> routing_agent \<Rightarrow> request_context \<Rightarrow>
     (event list \<times> error option) \<times> routing_agent" where
  "execute lib e router ctx =
     (case message ctx of
        None \<Rightarrow> (([], Some ValueError), router)
      | Some msg \<Rightarrow>
          (let query = user_input ctx
           in case orch_task_of lib ctx msg of
                Inl err \<Rightarrow> (([], Some err), router)
              | Inr orch_task \<Rightarrow>
                  (let created = (if current_task ctx = None then [TaskEvent orch_task] else [])
                   in case stream e router query (context_id orch_task) of
                        ((helper_events, tail), router') \<Rightarrow>
                          (case relay lib orch_task helper_events of
                             (out, r) \<Rightarrow>
                               ((created @ out,
                                 if exhausts lib orch_task helper_events then tail else r),
                                router')))))"

text \<open>A terminal event: a status update with \<^verbatim>\<open>final=True\<close>.\<close>

fun is_terminal :: "event \<Rightarrow> bool" where
  "is_terminal (TaskStatusUpdateEvent su) = final su"
| "is_terminal (TaskArtifactUpdateEvent au) = False"
| "is_terminal (TaskEvent t) = False"

section \<open>The properties in the specification's words\<close>

text \<open>A URL-shaped token: a scheme and at least one code point that the pattern allows.\<close>

definition url_shaped :: "pystr \<Rightarrow> bool" where
  "url_shaped u \<longleftrightarrow>
     (\<exists>body. body \<noteq> [] \<and> list_all url_char body \<and>
        (u = str ''http://'' @ body \<or> u = str ''https://'' @ body))"

text \<open>
  The skills that the fallback counts as a match: a non-empty id that occurs in the
  query, or a tag that does (ids and tags in lower case).
\<close>

definition skill_hit :: "(pystr \<Rightarrow> pystr) \<Rightarrow> pystr \<Rightarrow> agent_skill \<Rightarrow> bool" where
  "skill_hit lw q sk \<longleftrightarrow>
     (skill_id sk \<noteq> [] \<and> sublist (lw (skill_id sk)) q) \<or>
     (\<exists>tag \<in> set (case skill_tags sk of None \<Rightarrow> [] | Some ts \<Rightarrow> ts). sublist (lw tag) q)"

definition card_hit :: "(pystr \<Rightarrow> pystr) \<Rightarrow> pystr \<Rightarrow> agent_card \<Rightarrow> bool" where
  "card_hit lw q c \<longleftrightarrow> (\<exists>sk \<in> set (card_skills c). skill_hit lw q sk)"

text \<open>
  The successfully fetched descriptors of a discovery, in the order of the candidate
  list, in the specification's words: a candidate gives no descriptor on a network
  error (no response), on a malformed payload (a response without a valid card) and on
  a non-success status.
\<close>

fun fetch_success :: "response option \<Rightarrow> agent_card list" where
  "fetch_success None = []"
| "fetch_success (Some res) =
     (case validated_card res of
        None \<Rightarrow> []
      | Some c \<Rightarrow> if status_ok res then [c] else [])"

definition fetched :: "env \<Rightarrow> routing_agent \<Rightarrow> agent_card list" where
  "fetched e self =
     concat (map (\<lambda>u. fetch_success (session e (u @ str ''/.well-known/agent-card.json'')))
               (peer_urls self))"

text \<open>
  The nodes of kind \<^verbatim>\<open>text\<close> that a depth-first search reaches when it treats every node
  of kind \<^verbatim>\<open>text\<close> as a leaf: a dictionary comes before its values, the values and the
  items of a list are taken from first to last, and nothing inside a node of kind
  \<^verbatim>\<open>text\<close> (its metadata, for one) is visited.
\<close>

definition is_text_node :: "json \<Rightarrow> bool" where
  "is_text_node node \<longleftrightarrow>
     (case node of JDict kvs \<Rightarrow> get (str ''kind'') kvs = JStr (str ''text'') | _ \<Rightarrow> False)"

definition text_of :: "json \<Rightarrow> json" where
  "text_of node = (case node of JDict kvs \<Rightarrow> get (str ''text'') kvs | _ \<Rightarrow> JNone)"

fun text_nodes :: "json \<Rightarrow> json list"
  and text_nodes_values :: "json dict \<Rightarrow> json list"
  and text_nodes_items :: "json list \<Rightarrow> json list" where
  "text_nodes (JDict kvs) =
     (if get (str ''kind'') kvs = JStr (str ''text'') then [JDict kvs]
      else text_nodes_values kvs)"
| "text_nodes (JList xs) = text_nodes_items xs"
| "text_nodes JNone = []"
| "text_nodes (JBool b) = []"
| "text_nodes (JNum x) = []"
| "text_nodes (JStr s) = []"
| "text_nodes_values [] = []"
| "text_nodes_values (kv # kvs) = text_nodes (snd kv) @ text_nodes_values kvs"
| "text_nodes_items [] = []"
| "text_nodes_items (x # xs) = text_nodes x @ text_nodes_items xs"

definition first_truthy :: "json list \<Rightarrow> json" where
  "first_truthy ts = (case filter truthy ts of [] \<Rightarrow> JNone | t # _ \<Rightarrow> t)"

text \<open>An artifact-bearing helper event and one with the completion flag.\<close>

definition artifact_bearing :: "json dict \<Rightarrow> bool" where
  "artifact_bearing ev \<longleftrightarrow> has_key (str ''artifact'') ev \<or> has_key (str ''artifacts'') ev"

definition completion_flagged :: "json dict \<Rightarrow> bool" where
  "completion_flagged ev \<longleftrightarrow> truthy (get (str ''is_task_complete'') ev)"

text \<open>The events of a request before the first helper event is handled.\<close>

definition created_events :: "request_context \<Rightarrow> task \<Rightarrow> event list" where
  "created_events ctx t = (if current_task ctx = None then [TaskEvent t] else [])"

definition completed_event :: "task \<Rightarrow> pystr \<Rightarrow> event" where
  "completed_event t text =
     TaskStatusUpdateEvent
       \<lparr>su_taskId = task_id t, su_contextId = context_id t,
        status = TaskStatus completed (AgentTextMessage text (context_id t) (task_id t)),
        final = True\<rparr>"

definition working_event :: "task \<Rightarrow> pystr \<Rightarrow> event" where
  "working_event t text =
     TaskStatusUpdateEvent
       \<lparr>su_taskId = task_id t, su_contextId = context_id t,
        status = TaskStatus working (AgentTextMessage text (context_id t) (task_id t)),
        final = False\<rparr>"

definition answer_event :: "task \<Rightarrow> pystr \<Rightarrow> event" where
  "answer_event t text =
     TaskArtifactUpdateEvent
       \<lparr>au_taskId = task_id t, au_contextId = context_id t,
        artifact =
          JDict [(str ''name'', JStr (str ''answer'')),
                 (str ''description'', JStr (str ''Final answer from downstream agent'')),
                 (str ''parts'',
                  JList [JDict [(str ''kind'', JStr (str ''text'')), (str ''text'', JStr text)]])],
        append = False, lastChunk = True\<rparr>"

section \<open>Concrete requests\<close>

definition time_card :: agent_card where
  "time_card =
     \<lparr>card_url = str ''http://time:10000/'', card_name = str ''Find Time Agent'',
      card_description = str ''Tells the current system time.'',
      card_skills =
        [\<lparr>skill_id = str ''tell_time'', skill_name = str ''Get Current Time'',
          skill_description = str ''Tells the current system time in HH:MM:SS format.'',
          skill_tags = Some [str ''time'', str ''clock''],
          skill_examples = Some [str ''What time is it?'']\<rparr>]\<rparr>"

definition greet_card :: agent_card where
  "greet_card =
     \<lparr>card_url = str ''http://greet:10001/'', card_name = str ''Greeting Agent'',
      card_description = str ''Greets the user with a random inspirational quote.'',
      card_skills =
        [\<lparr>skill_id = str ''greet_with_quote'', skill_name = str ''Greet with Quote'',
          skill_description = str ''Returns a friendly greeting plus an inspirational quote.'',
          skill_tags = Some [str ''greeting'', str ''quote''],
          skill_examples = Some [str ''Hello!'']\<rparr>]\<rparr>"

definition two_worker_store :: "agent_card dict" where
  "two_worker_store = [(card_url time_card, time_card), (card_url greet_card, greet_card)]"

text \<open>A card whose only skill has an empty id and no tags.\<close>

definition blank_card :: agent_card where
  "blank_card =
     \<lparr>card_url = str ''http://blank:10003/'', card_name = str ''Blank'',
      card_description = [],
      card_skills =
        [\<lparr>skill_id = [], skill_name = str ''Unnamed'', skill_description = [],
          skill_tags = Some [], skill_examples = None\<rparr>]\<rparr>"

definition thinking :: "json dict" where
  "thinking =
     [(str ''is_task_complete'', JBool False), (str ''require_user_input'', JBool False),
      (str ''content'', JStr (str ''thinking''))]"

definition tokyo_answer :: "json dict" where
  "tokyo_answer =
     [(str ''is_task_complete'', JBool True), (str ''require_user_input'', JBool False),
      (str ''content'', JStr (str ''It is 10:00:00 in Asia/Tokyo.''))]"

text \<open>
  Five candidates: the time agent and the greeting agent answer; of the other three
  requests one times out, one is answered with status 500 (and a body that would pass
  as a card), and one is answered with a body that is not a card. The model names a URL
  that no card has; every client can be built; a helper reports progress and then its
  answer. The clock values below are subtracted without rounding.
\<close>

definition demo_env :: env where
  "demo_env =
     \<lparr>session =
        map_of
          [(str ''http://time:10000/.well-known/agent-card.json'',
            \<lparr>status_ok = True, validated_card = Some time_card\<rparr>),
           (str ''http://broken:10005/.well-known/agent-card.json'',
            \<lparr>status_ok = False, validated_card = Some blank_card\<rparr>),
           (str ''http://garbled:10006/.well-known/agent-card.json'',
            \<lparr>status_ok = True, validated_card = None\<rparr>),
           (str ''http://greet:10001/.well-known/agent-card.json'',
            \<lparr>status_ok = True, validated_card = Some greet_card\<rparr>)],
      time_stream = 1000, time_discovered = 1001,
      float_sub = (\<lambda>a b. a - b),
      model_reply = (\<lambda>cs q. str ''Use http://weather:9/ for that''),
      create_client = (\<lambda>c. None),
      send_message = (\<lambda>c q. ([thinking, tokyo_answer], None)),
      lower = ascii_lower\<rparr>"

definition demo_agent :: routing_agent where
  "demo_agent =
     \<lparr>peer_urls =
        [str ''http://time:10000'', str ''http://down:10002'', str ''http://broken:10005'',
         str ''http://garbled:10006'', str ''http://greet:10001''],
      cards = [(card_url blank_card, blank_card)], last_discovery = 0\<rparr>"


text \<open>An agent that has no candidate and no card.\<close>

definition lonely_agent :: routing_agent where
  "lonely_agent = \<lparr>peer_urls = [], cards = [], last_discovery = 990\<rparr>"

definition demo_task :: task where
  "demo_task = \<lparr>task_id = str ''task-1'', context_id = str ''ctx-1''\<rparr>"

text \<open>
  A library that accepts every artifact and status object as it is, and that makes a
  task for a message unless the message has no text.
\<close>

definition demo_lib :: a2a_lib where
  "demo_lib =
     \<lparr>Artifact_validate = Some, TaskStatus_validate = Some,
      new_task = (\<lambda>msg. if truthy (first_text msg) then Inr demo_task else Inl ValueError)\<rparr>"

definition user_message :: "pystr \<Rightarrow> json" where
  "user_message text =
     JDict [(str ''role'', JStr (str ''user'')),
            (str ''parts'',
             JList [JDict [(str ''kind'', JStr (str ''text'')), (str ''text'', JStr text)]]),
            (str ''messageId'', JStr (str ''m-1''))]"

definition tokyo_request :: request_context where
  "tokyo_request =
     \<lparr>message = Some (user_message (str ''What TIME is it in Tokyo'')),
      user_input = str ''What TIME is it in Tokyo'', current_task = None\<rparr>"



definition empty_request :: request_context where
  "empty_request = \<lparr>message = None, user_input = [], current_task = None\<rparr>"

text \<open>An artifact whose first text part is empty.\<close>

definition two_part_artifact :: json where
  "two_part_artifact =
     JDict [(str ''artifactId'', JStr (str ''a1'')),
            (str ''parts'',
             JList [JDict [(str ''kind'', JStr (str ''text'')), (str ''text'', JStr [])],
                    JDict [(str ''kind'', JStr (str ''text'')), (str ''text'', JStr (str ''hi''))]])]"

text \<open>
  An artifact whose first text part is empty and holds another node of kind \<^verbatim>\<open>text\<close> in
  its metadata.
\<close>

definition nested_artifact :: json where
  "nested_artifact =
     JDict [(str ''artifactId'', JStr (str ''a3'')),
            (str ''parts'',
             JList [JDict [(str ''kind'', JStr (str ''text'')), (str ''text'', JStr []),
                           (str ''metadata'',
                            JDict [(str ''x'',
                                    JDict [(str ''kind'', JStr (str ''text'')),
                                           (str ''text'', JStr (str ''inner''))])])],
                    JDict [(str ''kind'', JStr (str ''text'')),
                           (str ''text'', JStr (str ''later''))]])]"

text \<open>A finished task as a helper's client yields it: a status and the artifacts.\<close>

definition finished_task :: "json dict" where
  "finished_task =
     [(str ''id'', JStr (str ''helper-task'')),
      (str ''kind'', JStr (str ''task'')),
      (str ''status'', JDict [(str ''state'', JStr (str ''completed''))]),
      (str ''artifacts'',
       JList [JDict [(str ''artifactId'', JStr (str ''a2'')),
                     (str ''parts'',
                      JList [JDict [(str ''kind'', JStr (str ''text'')),
                                    (str ''text'', JStr (str ''10:00''))]])]])]"

definition working_task :: "json dict" where
  "working_task =
     [(str ''id'', JStr (str ''helper-task'')),
      (str ''kind'', JStr (str ''task'')),
      (str ''status'', JDict [(str ''state'', JStr (str ''completed''))])]"

section \<open>The relay loop\<close>

lemma enqueue_completed_terminal:
  "enqueue_completed t text = Inr d \<Longrightarrow> is_terminal d"
  by (auto simp: enqueue_completed_def split: sum.splits)

lemma handle_event_Continue:
  "handle_event lib t ev = Continue x \<Longrightarrow> \<not> is_terminal x"
  by (auto simp: handle_event_def make_status_event_def Let_def
           split: if_splits sum.splits option.splits)

lemma handle_event_Break:
  "handle_event lib t ev = Break out \<Longrightarrow>
     \<exists>au d. out = [TaskArtifactUpdateEvent au, d] \<and> is_terminal d"
  by (auto simp: handle_event_def Let_def dest: enqueue_completed_terminal
           split: if_splits sum.splits option.splits)

lemma handle_event_Raise:
  "handle_event lib t ev = Raise out err \<Longrightarrow> filter is_terminal out = []"
  by (auto simp: handle_event_def Let_def
           split: if_splits sum.splits option.splits)

lemma relay_terminal_count:
  "length (filter is_terminal (fst (relay lib t evs))) \<le> 1"
proof (induction evs)
  case Nil
  show ?case by simp
next
  case (Cons ev evs)
  show ?case
  proof (cases "handle_event lib t ev")
    case (Break out)
    then show ?thesis using handle_event_Break[OF Break] by auto
  next
    case (Continue x)
    then show ?thesis using handle_event_Continue[OF Continue] Cons.IH
      by (auto split: prod.splits)
  next
    case (Raise out err)
    then show ?thesis using handle_event_Raise[OF Raise] by auto
  qed
qed

lemma relay_stops:
  "list_ex is_terminal (fst (relay lib t evs)) \<Longrightarrow> relay lib t (evs @ rest) = relay lib t evs"
proof (induction evs)
  case Nil
  then show ?case by simp
next
  case (Cons ev evs)
  show ?case
  proof (cases "handle_event lib t ev")
    case (Break out)
    then show ?thesis by simp
  next
    case (Continue x)
    with Cons.prems handle_event_Continue[OF Continue]
    have "list_ex is_terminal (fst (relay lib t evs))"
      by (auto split: prod.splits)
    then have "relay lib t (evs @ rest) = relay lib t evs" by (rule Cons.IH)
    with Continue show ?thesis by simp
  next
    case (Raise out err)
    then show ?thesis by simp
  qed
qed

lemma execute_events:
  "message ctx = Some msg \<Longrightarrow> orch_task_of lib ctx msg = Inr t \<Longrightarrow>
   fst (fst (execute lib e router ctx)) =
     created_events ctx t @
     fst (relay lib t (fst (fst (stream e router (user_input ctx) (context_id t)))))"
  by (simp add: execute_def created_events_def Let_def split: prod.splits)


lemma execute_no_task:
  "message ctx = Some msg \<Longrightarrow> orch_task_of lib ctx msg = Inl err \<Longrightarrow>
   execute lib e router ctx = (([], Some err), router)"
  by (simp add: execute_def Let_def)

lemma created_events_not_terminal:
  "filter is_terminal (created_events ctx t) = []"
  by (simp add: created_events_def)

lemma execute_terminal_count:
  "length (filter is_terminal (fst (fst (execute lib e router ctx)))) \<le> 1"
proof (cases "message ctx")
  case None
  then show ?thesis by (simp add: execute_def)
next
  case (Some msg)
  show ?thesis
  proof (cases "orch_task_of lib ctx msg")
    case (Inl err)
    from execute_no_task[OF Some Inl] show ?thesis by simp
  next
    case (Inr t)
    show ?thesis
      unfolding execute_events[OF Some Inr]
      using relay_terminal_count by (simp add: created_events_not_terminal)
  qed
qed

text \<open>
  The two progress events of the concrete helper: a working status, then the answer as
  an artifact and the completed status.
\<close>

lemma handle_thinking:
  "handle_event lib t thinking = Continue (working_event t (str ''thinking''))"
  by (simp add: handle_event_def thinking_def has_key_def get_def dict_get_def
        new_agent_text_message_def working_event_def)

lemma handle_tokyo_answer:
  "handle_event lib t tokyo_answer =
     Break [answer_event t (str ''It is 10:00:00 in Asia/Tokyo.''),
            completed_event t (str ''It is 10:00:00 in Asia/Tokyo.'')]"
  by (simp add: handle_event_def tokyo_answer_def has_key_def get_def dict_get_def
        new_agent_text_message_def new_text_artifact_def enqueue_completed_def
        answer_event_def completed_event_def)

lemma relay_demo:
  "relay lib t [thinking, tokyo_answer] =
     ([working_event t (str ''thinking''),
       answer_event t (str ''It is 10:00:00 in Asia/Tokyo.''),
       completed_event t (str ''It is 10:00:00 in Asia/Tokyo.'')], None)"
  by (simp add: handle_thinking handle_tokyo_answer)

section \<open>C1: at most one terminal event\<close>

text \<open>
  C1. Whatever helper events one \<^verbatim>\<open>execute\<close> consumes, at most one terminal event (a
  status update with \<^verbatim>\<open>final=True\<close>) is enqueued, by the loop and by the whole call. Once
  the loop has enqueued a terminal event it has stopped: the helper events that follow,
  terminal-shaped or not, change nothing.
\<close>

theorem at_most_one_terminal:
  "length (filter is_terminal (fst (relay lib t evs))) \<le> 1 \<and>
   length (filter is_terminal (fst (fst (execute lib e router ctx)))) \<le> 1 \<and>
   (list_ex is_terminal (fst (relay lib t evs)) \<longrightarrow>
      relay lib t (evs @ rest) = relay lib t evs)"
  using relay_terminal_count execute_terminal_count relay_stops by blast

theorem at_most_one_terminal_witness:
  "list_ex is_terminal (fst (relay demo_lib demo_task [thinking, tokyo_answer])) \<and>
   relay demo_lib demo_task ([thinking, tokyo_answer] @ [tokyo_answer, finished_task]) =
     relay demo_lib demo_task [thinking, tokyo_answer] \<and>
   length (filter is_terminal (fst (relay demo_lib demo_task [thinking, tokyo_answer]))) \<le> 1"
proof -
  have "list_ex is_terminal (fst (relay demo_lib demo_task [thinking, tokyo_answer]))"
    unfolding relay_demo
    by (simp add: working_event_def answer_event_def completed_event_def)
  with at_most_one_terminal[of demo_lib demo_task "[thinking, tokyo_answer]"
          demo_env demo_agent tokyo_request "[tokyo_answer, finished_task]"]
  show ?thesis by blast
qed

section \<open>C8: a request without a message\<close>

text \<open>
  C8. A request that carries no user message makes \<^verbatim>\<open>execute\<close> raise \<^verbatim>\<open>ValueError\<close> before
  anything else happens: no event is enqueued and the routing agent is as it was.
\<close>

theorem execute_without_message:
  "message ctx = None \<Longrightarrow> execute lib e router ctx = (([], Some ValueError), router)"
  by (simp add: execute_def)

theorem execute_without_message_witness:
  "message empty_request = None \<and>
   execute demo_lib demo_env demo_agent empty_request = (([], Some ValueError), demo_agent)"
  using execute_without_message[of empty_request demo_lib demo_env demo_agent]
  by (simp add: empty_request_def)

section \<open>What the relay makes of the router's own events\<close>








section \<open>The concrete requests, evaluated\<close>


lemma card_urls_differ: "card_url time_card \<noteq> card_url greet_card"
  by (simp add: time_card_def greet_card_def)




lemma demo_reply_url:
  "url_of_reply (str ''Use http://weather:9/ for that'') = str ''http://weather:9/''"
  by (simp add: url_of_reply_def match_url_def url_char_def py_isspace_def)

lemma demo_choose:
  "choose_agent demo_env cs query = str ''http://weather:9/''"
  unfolding choose_agent_def using demo_reply_url by (simp add: demo_env_def)

lemma tokyo_lower:
  "ascii_lower (str ''What TIME is it in Tokyo'') = str ''what time is it in tokyo''"
  by (simp add: ascii_lower_def)

lemma tokyo_fallback:
  "fallback_by_tags ascii_lower two_worker_store (str ''what time is it in tokyo'') =
     card_url time_card"
  by (simp add: fallback_by_tags_def dict_values_def two_worker_store_def time_card_def
        ascii_lower_def sublist_code(3))

lemma weather_not_stored: "\<not> has_key (str ''http://weather:9/'') two_worker_store"
  by (simp add: has_key_def two_worker_store_def time_card_def greet_card_def)

lemma tokyo_helper_url:
  "helper_url demo_env two_worker_store (str ''What TIME is it in Tokyo'') = card_url time_card"
proof -
  have "lower demo_env = ascii_lower" by (simp add: demo_env_def)
  then show ?thesis
    unfolding helper_url_def Let_def demo_choose
    using weather_not_stored tokyo_lower tokyo_fallback by simp
qed

lemma tokyo_chosen:
  "chosen_card demo_env two_worker_store (str ''What TIME is it in Tokyo'') = Some time_card"
  unfolding chosen_card_def Let_def tokyo_helper_url
  by (simp add: has_key_def dict_get_def two_worker_store_def time_card_def)






section \<open>C10: the interim event that names the chosen helper\<close>




section \<open>C2: no helper can answer\<close>




section \<open>C9: status envelopes\<close>

lemma handle_status_envelope:
  assumes "\<not> artifact_bearing ev"
    and "get (str ''kind'') ev = JStr (str ''task'')"
    and "dict_get (str ''status'') ev = Some st"
    and "TaskStatus_validate lib st = Some v"
  shows "handle_event lib t ev =
           Continue (TaskStatusUpdateEvent
                       \<lparr>su_taskId = task_id t, su_contextId = context_id t,
                        status = ValidatedStatus v, final = False\<rparr>)"
proof -
  from assms(3) have "has_key (str ''status'') ev"
    unfolding has_key_def dict_get_def
    by (metis domI dom_map_of_conv_image_fst set_map)
  with assms show ?thesis
    by (simp add: handle_event_def artifact_bearing_def make_status_event_def)
qed

lemma handle_event_Break_shape:
  "handle_event lib t ev = Break out \<Longrightarrow> artifact_bearing ev \<or> completion_flagged ev"
  by (auto simp: handle_event_def artifact_bearing_def completion_flagged_def
           split: if_splits sum.splits option.splits)

lemma relay_terminal_source:
  "list_ex is_terminal (fst (relay lib t evs)) \<Longrightarrow>
     list_ex (\<lambda>ev. artifact_bearing ev \<or> completion_flagged ev) evs"
proof (induction evs)
  case Nil
  then show ?case by simp
next
  case (Cons ev evs)
  show ?case
  proof (cases "handle_event lib t ev")
    case (Break out)
    from handle_event_Break_shape[OF Break] show ?thesis by simp
  next
    case (Continue x)
    with Cons.prems handle_event_Continue[OF Continue]
    have "list_ex is_terminal (fst (relay lib t evs))"
      by (auto split: prod.splits)
    then show ?thesis using Cons.IH by simp
  next
    case (Raise out err)
    with Cons.prems handle_event_Raise[OF Raise] show ?thesis
      by (simp add: list_ex_iff filter_empty_conv)
  qed
qed

lemma handle_finished_task:
  "handle_event demo_lib demo_task finished_task =
     Break [TaskArtifactUpdateEvent
              \<lparr>au_taskId = task_id demo_task, au_contextId = context_id demo_task,
               artifact =
                 JDict [(str ''artifactId'', JStr (str ''a2'')),
                        (str ''parts'',
                         JList [JDict [(str ''kind'', JStr (str ''text'')),
                                       (str ''text'', JStr (str ''10:00''))]])],
               append = False, lastChunk = True\<rparr>,
            completed_event demo_task (str ''10:00'')]"
  by (simp add: handle_event_def finished_task_def has_key_def get_def dict_get_def
        make_artifact_event_def demo_lib_def enqueue_completed_def
        new_agent_text_message_def completed_event_def)

text \<open>
  C9, as the code has it. A helper event of kind \<^verbatim>\<open>task\<close> with a \<^verbatim>\<open>status\<close> that carries
  neither \<^verbatim>\<open>artifact\<close> nor \<^verbatim>\<open>artifacts\<close>, and whose status object the library accepts, is
  relayed as a status update with \<^verbatim>\<open>final=False\<close>, whatever the status object says, and
  the loop goes on with the next helper event. A terminal event in the output of the
  loop comes from an artifact-bearing event or from one with the completion flag.
\<close>

theorem status_envelope_relayed:
  assumes "\<not> artifact_bearing ev"
    and "get (str ''kind'') ev = JStr (str ''task'')"
    and "dict_get (str ''status'') ev = Some st"
    and "TaskStatus_validate lib st = Some v"
  shows "relay lib t (ev # evs) =
           (TaskStatusUpdateEvent
              \<lparr>su_taskId = task_id t, su_contextId = context_id t,
               status = ValidatedStatus v, final = False\<rparr> # fst (relay lib t evs),
            snd (relay lib t evs)) \<and>
         (list_ex is_terminal (fst (relay lib t hs)) \<longrightarrow>
            list_ex (\<lambda>h. artifact_bearing h \<or> completion_flagged h) hs)"
  using handle_status_envelope[OF assms, of t] relay_terminal_source[of lib t hs]
  by (simp add: case_prod_beta)

theorem status_envelope_relayed_witness:
  "\<not> artifact_bearing working_task \<and>
   get (str ''kind'') working_task = JStr (str ''task'') \<and>
   dict_get (str ''status'') working_task = Some (JDict [(str ''state'', JStr (str ''completed''))]) \<and>
   relay demo_lib demo_task [working_task, tokyo_answer] =
     ([TaskStatusUpdateEvent
         \<lparr>su_taskId = task_id demo_task, su_contextId = context_id demo_task,
          status = ValidatedStatus (JDict [(str ''state'', JStr (str ''completed''))]),
          final = False\<rparr>,
       answer_event demo_task (str ''It is 10:00:00 in Asia/Tokyo.''),
       completed_event demo_task (str ''It is 10:00:00 in Asia/Tokyo.'')], None)"
proof -
  have a: "\<not> artifact_bearing working_task"
    by (simp add: artifact_bearing_def working_task_def has_key_def)
  have k: "get (str ''kind'') working_task = JStr (str ''task'')"
    by (simp add: working_task_def get_def dict_get_def)
  have s: "dict_get (str ''status'') working_task =
             Some (JDict [(str ''state'', JStr (str ''completed''))])"
    by (simp add: working_task_def dict_get_def)
  have v: "TaskStatus_validate demo_lib (JDict [(str ''state'', JStr (str ''completed''))]) =
             Some (JDict [(str ''state'', JStr (str ''completed''))])"
    by (simp add: demo_lib_def)
  have r: "relay demo_lib demo_task [tokyo_answer] =
             ([answer_event demo_task (str ''It is 10:00:00 in Asia/Tokyo.''),
               completed_event demo_task (str ''It is 10:00:00 in Asia/Tokyo.'')], None)"
    by (simp add: handle_tokyo_answer)
  from status_envelope_relayed[OF a k s v, of demo_task "[tokyo_answer]" "[]"] a k s
  show ?thesis unfolding r by simp
qed

text \<open>
  C9 as stated fails at a finished task: it is of kind \<^verbatim>\<open>task\<close> and carries a status, but
  it also carries \<^verbatim>\<open>artifacts\<close>, so the relay answers with the artifact and the terminal
  completed status and does not read the helper event that follows.
\<close>

theorem status_envelope_counterexample:
  "get (str ''kind'') finished_task = JStr (str ''task'') \<and>
   has_key (str ''status'') finished_task \<and>
   relay demo_lib demo_task [finished_task, thinking] =
     ([TaskArtifactUpdateEvent
         \<lparr>au_taskId = task_id demo_task, au_contextId = context_id demo_task,
          artifact =
            JDict [(str ''artifactId'', JStr (str ''a2'')),
                   (str ''parts'',
                    JList [JDict [(str ''kind'', JStr (str ''text'')),
                                  (str ''text'', JStr (str ''10:00''))]])],
          append = False, lastChunk = True\<rparr>,
       completed_event demo_task (str ''10:00'')], None) \<and>
   is_terminal (completed_event demo_task (str ''10:00''))"
proof -
  have k: "get (str ''kind'') finished_task = JStr (str ''task'')"
    by (simp add: finished_task_def get_def dict_get_def)
  have s: "has_key (str ''status'') finished_task"
    by (simp add: finished_task_def has_key_def)
  have t: "is_terminal (completed_event demo_task (str ''10:00''))"
    by (simp add: completed_event_def)
  from k s t show ?thesis by (simp add: handle_finished_task)
qed

section \<open>C5: a URL that is not in the store\<close>

lemma chosen_card_in_store:
  "chosen_card e cs query = Some c \<Longrightarrow>
     has_key (helper_url e cs query) cs \<and> dict_get (helper_url e cs query) cs = Some c"
  by (simp add: chosen_card_def Let_def split: if_splits)

lemma dict_get_in_values: "dict_get k d = Some v \<Longrightarrow> v \<in> set (dict_values d)"
  unfolding dict_get_def dict_values_def
  by (metis map_of_SomeD set_map image_eqI snd_conv)

text \<open>
  C5. When the URL of stage 1 is the word \<^verbatim>\<open>NONE\<close> or is not a key of the store, the URL
  the router goes on with is the one the fallback returns for the lower-cased query. The
  card the router sends the request to is always stored under the URL it went on with,
  so that a URL that is not a key of the store is never the target.
\<close>

theorem absent_url_falls_back:
  "(choose_agent e cs query = str ''NONE'' \<or> \<not> has_key (choose_agent e cs query) cs \<longrightarrow>
      helper_url e cs query = fallback_by_tags (lower e) cs (lower e query)) \<and>
   (chosen_card e cs query = Some c \<longrightarrow>
      has_key (helper_url e cs query) cs \<and> dict_get (helper_url e cs query) cs = Some c \<and>
      c \<in> set (dict_values cs)) \<and>
   (\<not> has_key (helper_url e cs query) cs \<longrightarrow> chosen_card e cs query = None)"
proof (intro conjI impI)
  assume "choose_agent e cs query = str ''NONE'' \<or> \<not> has_key (choose_agent e cs query) cs"
  then show "helper_url e cs query = fallback_by_tags (lower e) cs (lower e query)"
    by (auto simp: helper_url_def Let_def)
next
  assume c: "chosen_card e cs query = Some c"
  from chosen_card_in_store[OF c] show "has_key (helper_url e cs query) cs" by simp
  from chosen_card_in_store[OF c] show "dict_get (helper_url e cs query) cs = Some c" by simp
  then show "c \<in> set (dict_values cs)" by (rule dict_get_in_values)
next
  assume "\<not> has_key (helper_url e cs query) cs"
  then show "chosen_card e cs query = None" by (simp add: chosen_card_def Let_def)
qed

theorem absent_url_falls_back_witness:
  "choose_agent demo_env two_worker_store (str ''What TIME is it in Tokyo'') =
     str ''http://weather:9/'' \<and>
   \<not> has_key (str ''http://weather:9/'') two_worker_store \<and>
   helper_url demo_env two_worker_store (str ''What TIME is it in Tokyo'') =
     fallback_by_tags ascii_lower two_worker_store (str ''what time is it in tokyo'') \<and>
   chosen_card demo_env two_worker_store (str ''What TIME is it in Tokyo'') = Some time_card \<and>
   has_key (helper_url demo_env two_worker_store (str ''What TIME is it in Tokyo''))
     two_worker_store"
proof -
  have l: "lower demo_env = ascii_lower" by (simp add: demo_env_def)
  note th = absent_url_falls_back[of demo_env two_worker_store
              "str ''What TIME is it in Tokyo''" time_card]
  have c: "choose_agent demo_env two_worker_store (str ''What TIME is it in Tokyo'') =
             str ''http://weather:9/''"
    by (rule demo_choose)
  from th weather_not_stored
  have h: "helper_url demo_env two_worker_store (str ''What TIME is it in Tokyo'') =
             fallback_by_tags ascii_lower two_worker_store (str ''what time is it in tokyo'')"
    unfolding c l tokyo_lower by blast
  from th tokyo_chosen
  have k: "has_key (helper_url demo_env two_worker_store (str ''What TIME is it in Tokyo''))
             two_worker_store"
    by blast
  from c weather_not_stored h tokyo_chosen k show ?thesis by blast
qed

section \<open>C4: the fallback\<close>

lemma skills_match_Cons:
  "skills_match lw (sk # sks) q \<longleftrightarrow> skill_hit lw q sk \<or> skills_match lw sks q"
  by (cases "skill_tags sk") (auto simp: skill_hit_def list_ex_iff)

lemma skills_match_iff:
  "skills_match lw sks q \<longleftrightarrow> (\<exists>sk \<in> set sks. skill_hit lw q sk)"
proof (induction sks)
  case Nil
  show ?case by simp
next
  case (Cons sk sks)
  show ?case unfolding skills_match_Cons Cons.IH by simp
qed

lemma fallback_cards_find:
  "fallback_cards lw cs q =
     (case find (card_hit lw q) cs of Some c \<Rightarrow> card_url c | None \<Rightarrow> str ''NONE'')"
  by (induction cs) (simp_all add: skills_match_iff card_hit_def)

text \<open>
  C4, as the code has it. The fallback returns the URL of the first card, in the order
  of the store, that has a skill whose id is not empty and occurs (in lower case) in the
  query it is given, or one of whose tags does; it returns \<^verbatim>\<open>NONE\<close> when there is no
  such card, so always on an empty store. On the store of the two workers it returns
  the URL of the time agent for the query about the time in Tokyo.
\<close>

theorem fallback_first_match:
  "fallback_by_tags lw cs q =
     (case find (card_hit lw q) (dict_values cs) of
        Some c \<Rightarrow> card_url c
      | None \<Rightarrow> str ''NONE'') \<and>
   fallback_by_tags lw [] q = str ''NONE'' \<and>
   fallback_by_tags ascii_lower two_worker_store (str ''what time is it in tokyo'') =
     card_url time_card"
  using tokyo_fallback
  by (simp add: fallback_by_tags_def fallback_cards_find dict_values_def)

theorem fallback_first_match_witness:
  "find (card_hit ascii_lower (str ''say hello with a quote'')) (dict_values two_worker_store) =
     Some greet_card \<and>
   fallback_by_tags ascii_lower two_worker_store (str ''say hello with a quote'') =
     card_url greet_card"
proof -
  have "find (card_hit ascii_lower (str ''say hello with a quote''))
          (dict_values two_worker_store) = Some greet_card"
    by (simp add: dict_values_def two_worker_store_def card_hit_def skill_hit_def
          time_card_def greet_card_def ascii_lower_def sublist_code(3))
  with fallback_first_match[of ascii_lower two_worker_store "str ''say hello with a quote''"]
  show ?thesis by simp
qed

text \<open>
  C4 as stated fails at a skill with the empty id: the empty string occurs in every
  query, but the fallback skips an empty id and returns \<^verbatim>\<open>NONE\<close>.
\<close>

theorem fallback_empty_id_counterexample:
  "skill_id (hd (card_skills blank_card)) = [] \<and>
   sublist (ascii_lower (skill_id (hd (card_skills blank_card)))) (str ''hello'') \<and>
   fallback_by_tags ascii_lower [(card_url blank_card, blank_card)] (str ''hello'') = str ''NONE'' \<and>
   card_url blank_card \<noteq> str ''NONE''"
  by (simp add: blank_card_def ascii_lower_def fallback_by_tags_def dict_values_def)

section \<open>C3: the URL in the model's reply\<close>

lemma prefix_split: "prefix p s \<Longrightarrow> length p = n \<Longrightarrow> s = p @ drop n s"
  by (auto simp: prefix_def)

lemma takeWhile_all: "list_all P (takeWhile P xs)"
  by (induction xs) simp_all

lemma match_url_Some:
  assumes "match_url s = Some m"
  shows "url_shaped m \<and> (\<exists>ss. s = m @ ss \<and> (ss = [] \<or> \<not> url_char (hd ss)))"
proof -
  consider (https) "prefix (str ''https://'') s" "takeWhile url_char (drop 8 s) \<noteq> []"
      "m = str ''https://'' @ takeWhile url_char (drop 8 s)"
    | (http) "prefix (str ''http://'') s" "takeWhile url_char (drop 7 s) \<noteq> []"
      "m = str ''http://'' @ takeWhile url_char (drop 7 s)"
    using assms unfolding match_url_def by (auto split: if_splits)
  then show ?thesis
  proof cases
    case https
    have s: "s = str ''https://'' @ drop 8 s" by (rule prefix_split[OF https(1)]) simp
    have "s = m @ dropWhile url_char (drop 8 s)"
      unfolding https(3) using s by (metis append.assoc takeWhile_dropWhile_id)
    moreover have "dropWhile url_char (drop 8 s) = [] \<or>
        \<not> url_char (hd (dropWhile url_char (drop 8 s)))"
      using hd_dropWhile by blast
    moreover have "url_shaped m"
      unfolding url_shaped_def https(3) using https(2) takeWhile_all by blast
    ultimately show ?thesis by blast
  next
    case http
    have s: "s = str ''http://'' @ drop 7 s" by (rule prefix_split[OF http(1)]) simp
    have "s = m @ dropWhile url_char (drop 7 s)"
      unfolding http(3) using s by (metis append.assoc takeWhile_dropWhile_id)
    moreover have "dropWhile url_char (drop 7 s) = [] \<or>
        \<not> url_char (hd (dropWhile url_char (drop 7 s)))"
      using hd_dropWhile by blast
    moreover have "url_shaped m"
      unfolding url_shaped_def http(3) using http(2) takeWhile_all by blast
    ultimately show ?thesis by blast
  qed
qed

lemma takeWhile_starts:
  "body \<noteq> [] \<Longrightarrow> list_all P body \<Longrightarrow> takeWhile P (body @ ss) \<noteq> []"
  by (cases body) simp_all

lemma match_url_None:
  assumes "match_url s = None" and "url_shaped u"
  shows "\<not> prefix u s"
proof
  assume p: "prefix u s"
  from assms(2) obtain body where b: "body \<noteq> []" "list_all url_char body"
    and u: "u = str ''http://'' @ body \<or> u = str ''https://'' @ body"
    unfolding url_shaped_def by blast
  from p obtain ss where s: "s = u @ ss" by (auto simp: prefix_def)
  from u show False
  proof
    assume "u = str ''http://'' @ body"
    with s have "prefix (str ''http://'') s" "drop 7 s = body @ ss" by simp_all
    with takeWhile_starts[OF b] have "match_url s \<noteq> None"
      unfolding match_url_def by simp
    with assms(1) show False by simp
  next
    assume "u = str ''https://'' @ body"
    with s have "prefix (str ''https://'') s" "drop 8 s = body @ ss" by simp_all
    with takeWhile_starts[OF b] have "match_url s \<noteq> None"
      unfolding match_url_def by simp
    with assms(1) show False by simp
  qed
qed

lemma re_search_url_Some:
  "re_search_url s = Some m \<Longrightarrow>
     url_shaped m \<and>
     (\<exists>ps ss. s = ps @ m @ ss \<and> (ss = [] \<or> \<not> url_char (hd ss)) \<and>
        (\<forall>i<length ps. match_url (drop i s) = None))"
proof (induction s)
  case Nil
  then show ?case by simp
next
  case (Cons c cs)
  show ?case
  proof (cases "match_url (c # cs)")
    case (Some m')
    with Cons.prems have "m' = m" by simp
    with match_url_Some[OF Some] obtain ss where
      "url_shaped m" "c # cs = [] @ m @ ss" "ss = [] \<or> \<not> url_char (hd ss)" by auto
    then show ?thesis by (metis length_0_conv list.size(3) not_less_zero)
  next
    case None
    with Cons.prems have "re_search_url cs = Some m" by simp
    from Cons.IH[OF this] obtain ps ss where m: "url_shaped m" and s: "cs = ps @ m @ ss"
      and l: "ss = [] \<or> \<not> url_char (hd ss)"
      and f: "\<forall>i<length ps. match_url (drop i cs) = None" by blast
    have "\<forall>i<length (c # ps). match_url (drop i (c # cs)) = None"
    proof (intro allI impI)
      fix i assume "i < length (c # ps)"
      then show "match_url (drop i (c # cs)) = None"
        using None f by (cases i) simp_all
    qed
    moreover from s have "c # cs = (c # ps) @ m @ ss" by simp
    ultimately show ?thesis using m l by blast
  qed
qed

lemma re_search_url_None:
  "re_search_url s = None \<Longrightarrow> url_shaped u \<Longrightarrow> \<not> sublist u s"
proof (induction s)
  case Nil
  then show ?case by (auto simp: url_shaped_def)
next
  case (Cons c cs)
  from Cons.prems(1) have n: "match_url (c # cs) = None" and r: "re_search_url cs = None"
    by (auto split: option.splits)
  from match_url_None[OF n Cons.prems(2)] Cons.IH[OF r Cons.prems(2)]
  show ?case by (simp add: sublist_Cons_right)
qed

lemma url_shaped_not_NONE: "url_shaped u \<Longrightarrow> u \<noteq> str ''NONE''"
  by (auto simp: url_shaped_def)

lemma url_of_reply_NONE_iff:
  "url_of_reply reply = str ''NONE'' \<longleftrightarrow> re_search_url reply = None"
proof (cases "re_search_url reply")
  case None
  then show ?thesis by (simp add: url_of_reply_def)
next
  case (Some m)
  with re_search_url_Some[OF Some] url_shaped_not_NONE[of m] show ?thesis
    by (simp add: url_of_reply_def)
qed

lemma url_of_reply_found:
  assumes "url_of_reply reply \<noteq> str ''NONE''"
  shows "url_shaped (url_of_reply reply) \<and>
         (\<exists>ps ss. reply = ps @ url_of_reply reply @ ss \<and>
            (ss = [] \<or> \<not> url_char (hd ss)) \<and>
            (\<forall>i<length ps. \<forall>u. url_shaped u \<longrightarrow> \<not> prefix u (drop i reply)))"
proof -
  from assms obtain m where m: "re_search_url reply = Some m"
    by (cases "re_search_url reply") (simp_all add: url_of_reply_def)
  then have u: "url_of_reply reply = m" by (simp add: url_of_reply_def)
  from re_search_url_Some[OF m] match_url_None show ?thesis unfolding u by metis
qed

lemma with_sentinel_url:
  "url_of_reply (str ''NONE, or maybe http://time:10000/'') = str ''http://time:10000/''"
  by (simp add: url_of_reply_def match_url_def url_char_def py_isspace_def)

text \<open>
  C3, as the code has it. Stage 1 resolves to \<^verbatim>\<open>NONE\<close> exactly when the reply contains no
  URL-shaped token (\<^verbatim>\<open>http://\<close> or \<^verbatim>\<open>https://\<close> and at least one code point that is not white
  space, a quote or an angle bracket), as the reply \<^verbatim>\<open>NONE\<close> does. Otherwise it resolves to
  such a token, cut out of the reply: the leftmost one, extended to the right as far as
  the allowed code points go. The word \<^verbatim>\<open>NONE\<close> next to a URL changes nothing.
\<close>

theorem stage1_resolution:
  "(url_of_reply reply = str ''NONE'' \<longleftrightarrow> \<not> (\<exists>u. url_shaped u \<and> sublist u reply)) \<and>
   (url_of_reply reply \<noteq> str ''NONE'' \<longrightarrow>
      url_shaped (url_of_reply reply) \<and>
      (\<exists>ps ss. reply = ps @ url_of_reply reply @ ss \<and>
         (ss = [] \<or> \<not> url_char (hd ss)) \<and>
         (\<forall>i<length ps. \<forall>u. url_shaped u \<longrightarrow> \<not> prefix u (drop i reply)))) \<and>
   url_of_reply (str ''NONE'') = str ''NONE''"
proof (intro conjI impI)
  show "url_of_reply reply = str ''NONE'' \<longleftrightarrow> \<not> (\<exists>u. url_shaped u \<and> sublist u reply)"
  proof
    assume "url_of_reply reply = str ''NONE''"
    then have "re_search_url reply = None" by (simp only: url_of_reply_NONE_iff)
    then show "\<not> (\<exists>u. url_shaped u \<and> sublist u reply)"
      using re_search_url_None by blast
  next
    assume n: "\<not> (\<exists>u. url_shaped u \<and> sublist u reply)"
    show "url_of_reply reply = str ''NONE''"
    proof (rule ccontr)
      assume "url_of_reply reply \<noteq> str ''NONE''"
      from url_of_reply_found[OF this] obtain ps ss where
        "url_shaped (url_of_reply reply)" "reply = ps @ url_of_reply reply @ ss" by blast
      then have "url_shaped (url_of_reply reply) \<and> sublist (url_of_reply reply) reply"
        unfolding sublist_def by blast
      with n show False by blast
    qed
  qed
next
  assume a: "url_of_reply reply \<noteq> str ''NONE''"
  from url_of_reply_found[OF a] show "url_shaped (url_of_reply reply)" by blast
  from url_of_reply_found[OF a]
  show "\<exists>ps ss. reply = ps @ url_of_reply reply @ ss \<and>
         (ss = [] \<or> \<not> url_char (hd ss)) \<and>
         (\<forall>i<length ps. \<forall>u. url_shaped u \<longrightarrow> \<not> prefix u (drop i reply))" by blast
next
  show "url_of_reply (str ''NONE'') = str ''NONE''"
    by (simp add: url_of_reply_def match_url_def)
qed

theorem stage1_resolution_witness:
  "url_of_reply (str ''Use http://weather:9/ for that'') = str ''http://weather:9/'' \<and>
   url_of_reply (str ''Use http://weather:9/ for that'') \<noteq> str ''NONE'' \<and>
   url_shaped (str ''http://weather:9/'') \<and>
   (\<exists>u. url_shaped u \<and> sublist u (str ''Use http://weather:9/ for that''))"
proof -
  have n: "url_of_reply (str ''Use http://weather:9/ for that'') \<noteq> str ''NONE''"
    unfolding demo_reply_url by simp
  from stage1_resolution[of "str ''Use http://weather:9/ for that''"] n
  have "url_shaped (url_of_reply (str ''Use http://weather:9/ for that''))"
    and "\<exists>u. url_shaped u \<and> sublist u (str ''Use http://weather:9/ for that'')"
    by blast+
  with n demo_reply_url show ?thesis by simp
qed

text \<open>
  C3 as stated fails at a reply that holds the sentinel word and a URL: stage 1
  resolves to the URL.
\<close>

theorem reply_with_sentinel_counterexample:
  "sublist (str ''NONE'') (str ''NONE, or maybe http://time:10000/'') \<and>
   url_of_reply (str ''NONE, or maybe http://time:10000/'') = str ''http://time:10000/'' \<and>
   url_of_reply (str ''NONE, or maybe http://time:10000/'') \<noteq> str ''NONE''"
  unfolding with_sentinel_url by (simp add: sublist_code(3))

section \<open>C6: what a discovery leaves in the store\<close>

lemma keys_dict_set: "set (map fst (dict_set k v d)) = insert k (set (map fst d))"
  by (induction d) auto

lemma dict_set_new: "k \<notin> set (map fst d) \<Longrightarrow> dict_set k v d = d @ [(k, v)]"
  by (induction d) auto

lemma entries_dict_set:
  "(u, c) \<in> set (dict_set k v d) \<Longrightarrow> (u, c) \<in> set d \<or> (u = k \<and> c = v)"
  by (induction d) (auto split: if_splits)

text \<open>The cards among the results of the fetches, in their order.\<close>

lemma cards_of_keys:
  "set (map fst (cards_of found d)) =
     set (map fst d) \<union> card_url ` set (concat (map (case_option [] (\<lambda>c. [c])) found))"
proof (induction found arbitrary: d)
  case Nil
  show ?case by simp
next
  case (Cons f found)
  show ?case
  proof (cases f)
    case None
    then show ?thesis using Cons.IH[of d] by simp
  next
    case (Some c)
    then show ?thesis using Cons.IH[of "dict_set (card_url c) c d"]
      by (auto simp: keys_dict_set[simplified])
  qed
qed

lemma cards_of_entries:
  "(u, c) \<in> set (cards_of found d) \<Longrightarrow>
     (u, c) \<in> set d \<or>
     (c \<in> set (concat (map (case_option [] (\<lambda>c. [c])) found)) \<and> card_url c = u)"
proof (induction found arbitrary: d)
  case Nil
  then show ?case by simp
next
  case (Cons f found)
  show ?case
  proof (cases f)
    case None
    with Cons.prems Cons.IH[of d] show ?thesis by simp
  next
    case (Some c')
    with Cons.prems have "(u, c) \<in> set (cards_of found (dict_set (card_url c') c' d))" by simp
    from Cons.IH[OF this] entries_dict_set[of u c "card_url c'" c' d] Some
    show ?thesis by auto
  qed
qed

lemma cards_of_distinct_urls:
  "distinct (map card_url (concat (map (case_option [] (\<lambda>c. [c])) found))) \<Longrightarrow>
   card_url ` set (concat (map (case_option [] (\<lambda>c. [c])) found)) \<inter> set (map fst d) = {} \<Longrightarrow>
   cards_of found d =
     d @ map (\<lambda>c. (card_url c, c)) (concat (map (case_option [] (\<lambda>c. [c])) found))"
proof (induction found arbitrary: d)
  case Nil
  show ?case by simp
next
  case (Cons f found)
  show ?case
  proof (cases f)
    case None
    with Cons.prems Cons.IH[of d] show ?thesis by simp
  next
    case (Some c)
    with Cons.prems have n: "card_url c \<notin> set (map fst d)" by auto
    have d: "dict_set (card_url c) c d = d @ [(card_url c, c)]"
      by (rule dict_set_new[OF n])
    from Some Cons.prems
    have "distinct (map card_url (concat (map (case_option [] (\<lambda>c. [c])) found)))"
      and "card_url ` set (concat (map (case_option [] (\<lambda>c. [c])) found)) \<inter>
             set (map fst (d @ [(card_url c, c)])) = {}"
      by auto
    from Cons.IH[OF this] Some d show ?thesis by simp
  qed
qed

lemma fetch_card_success:
  "case_option [] (\<lambda>c. [c]) (fetch_card s u) =
     fetch_success (s (u @ str ''/.well-known/agent-card.json''))"
  by (cases "s (u @ str ''/.well-known/agent-card.json'')")
     (simp_all add: fetch_card_def split: option.splits)

lemma fetched_found:
  "fetched e self =
     concat (map (case_option [] (\<lambda>c. [c])) (map (fetch_card (session e)) (peer_urls self)))"
  unfolding fetched_def map_map comp_def fetch_card_success ..

lemma discover_cards:
  "cards (discover e self) = cards_of (map (fetch_card (session e)) (peer_urls self)) []"
  by (simp add: discover_def Let_def)

lemma discover_distinct_urls:
  assumes "distinct (map card_url (fetched e self))"
  shows "cards (discover e self) = map (\<lambda>c. (card_url c, c)) (fetched e self)"
  using assms cards_of_distinct_urls[of "map (fetch_card (session e)) (peer_urls self)" "[]"]
  unfolding discover_cards fetched_found by simp

text \<open>
  C6. A descriptor's URL is its key: when the successfully fetched descriptors advertise
  different URLs, the store after a discovery holds exactly these descriptors, each
  under its URL, in the order of the candidate list, so that its entry set is the set
  of the successfully fetched descriptors. Whatever the URLs, the keys of the store are
  the URLs of the successfully fetched descriptors and every entry is one of them under
  its own URL: a candidate that fails - by a network error, a malformed payload or a
  non-success status - leaves no entry, and what the store held before plays no part,
  so a worker that is no longer reachable is gone. \<^verbatim>\<open>last_discovery\<close> becomes the time at
  which the discovery completed, whatever it found, also when it found nothing.
\<close>

theorem discover_store:
  "(distinct (map card_url (fetched e self)) \<longrightarrow>
      cards (discover e self) = map (\<lambda>c. (card_url c, c)) (fetched e self) \<and>
      set (dict_values (cards (discover e self))) = set (fetched e self)) \<and>
   set (map fst (cards (discover e self))) = card_url ` set (fetched e self) \<and>
   (\<forall>(u, c) \<in> set (cards (discover e self)). c \<in> set (fetched e self) \<and> card_url c = u) \<and>
   (fetched e self = [] \<longrightarrow> cards (discover e self) = []) \<and>
   cards (discover e (self\<lparr>cards := old\<rparr>)) = cards (discover e self) \<and>
   last_discovery (discover e self) = time_discovered e \<and>
   peer_urls (discover e self) = peer_urls self"
proof (intro conjI)
  show "distinct (map card_url (fetched e self)) \<longrightarrow>
      cards (discover e self) = map (\<lambda>c. (card_url c, c)) (fetched e self) \<and>
      set (dict_values (cards (discover e self))) = set (fetched e self)"
    using discover_distinct_urls[of e self] by (auto simp: dict_values_def comp_def)
  show "set (map fst (cards (discover e self))) = card_url ` set (fetched e self)"
    unfolding discover_cards fetched_found cards_of_keys by simp
  show "\<forall>(u, c) \<in> set (cards (discover e self)). c \<in> set (fetched e self) \<and> card_url c = u"
  proof (clarify, rule conjI)
    fix u c assume "(u, c) \<in> set (cards (discover e self))"
    then have "(u, c) \<in> set (cards_of (map (fetch_card (session e)) (peer_urls self)) [])"
      by (simp only: discover_cards)
    from cards_of_entries[OF this]
    have "c \<in> set (fetched e self) \<and> card_url c = u"
      by (simp only: fetched_found) simp
    then show "c \<in> set (fetched e self)" and "card_url c = u" by simp_all
  qed
  show "fetched e self = [] \<longrightarrow> cards (discover e self) = []"
    using discover_distinct_urls[of e self] by auto
  show "cards (discover e (self\<lparr>cards := old\<rparr>)) = cards (discover e self)"
    by (simp add: discover_def Let_def)
  show "last_discovery (discover e self) = time_discovered e"
    by (simp add: discover_def Let_def)
  show "peer_urls (discover e self) = peer_urls self"
    by (simp add: discover_def Let_def)
qed

text \<open>
  Of five candidates one times out, one answers with status 500 and one with a body
  that is not a card: the store ends with the two other descriptors, and the card it
  held before is gone. A discovery without candidates leaves the store empty and sets
  the time all the same.
\<close>

theorem discover_store_witness:
  "fetched demo_env demo_agent = [time_card, greet_card] \<and>
   distinct (map card_url (fetched demo_env demo_agent)) \<and>
   cards demo_agent = [(card_url blank_card, blank_card)] \<and>
   cards (discover demo_env demo_agent) =
     [(card_url time_card, time_card), (card_url greet_card, greet_card)] \<and>
   last_discovery (discover demo_env demo_agent) = 1001 \<and>
   fetched demo_env lonely_agent = [] \<and>
   cards (discover demo_env lonely_agent) = [] \<and>
   last_discovery (discover demo_env lonely_agent) = 1001"
proof -
  have f: "fetched demo_env demo_agent = [time_card, greet_card]"
    by (simp add: fetched_def demo_env_def demo_agent_def)
  have d: "distinct (map card_url (fetched demo_env demo_agent))"
    unfolding f using card_urls_differ by simp
  have b: "cards demo_agent = [(card_url blank_card, blank_card)]"
    by (simp add: demo_agent_def)
  have l: "fetched demo_env lonely_agent = []"
    by (simp add: fetched_def lonely_agent_def)
  have t: "time_discovered demo_env = 1001" by (simp add: demo_env_def)
  from discover_store[of demo_env demo_agent] d f t
  have 1: "cards (discover demo_env demo_agent) =
     [(card_url time_card, time_card), (card_url greet_card, greet_card)]"
    and 2: "last_discovery (discover demo_env demo_agent) = 1001"
    by simp_all
  from discover_store[of demo_env lonely_agent] l t
  have 3: "cards (discover demo_env lonely_agent) = []"
    and 4: "last_discovery (discover demo_env lonely_agent) = 1001"
    by simp_all
  from f d b 1 2 l 3 4 show ?thesis by blast
qed

section \<open>C7: the text of an artifact\<close>

lemma first_truthy_Nil: "first_truthy [] = JNone"
  by (simp add: first_truthy_def)

lemma first_truthy_single:
  "first_truthy [t] = (if truthy t then t else JNone)"
  by (simp add: first_truthy_def)

lemma first_truthy_append:
  "first_truthy (xs @ ys) =
     (if truthy (first_truthy xs) then first_truthy xs else first_truthy ys)"
proof (cases "filter truthy xs")
  case Nil
  then show ?thesis by (simp add: first_truthy_def)
next
  case (Cons t ts)
  then have "t \<in> set (filter truthy xs)" by simp
  then have "truthy t" by simp
  with Cons show ?thesis by (simp add: first_truthy_def)
qed

lemma first_truthy_falsy: "\<not> truthy (first_truthy xs) \<Longrightarrow> first_truthy xs = JNone"
proof (cases "filter truthy xs")
  case Nil
  then show ?thesis by (simp add: first_truthy_def)
next
  case (Cons t ts)
  assume n: "\<not> truthy (first_truthy xs)"
  from Cons have "t \<in> set (filter truthy xs)" by simp
  then have "truthy t" by simp
  with Cons n show ?thesis by (simp add: first_truthy_def)
qed

lemma first_text_nodes:
  "first_truthy (map text_of (text_nodes node)) =
     (if truthy (first_text node) then first_text node else JNone)"
  "first_truthy (map text_of (text_nodes_values kvs)) = first_text_values kvs"
  "first_truthy (map text_of (text_nodes_items xs)) = first_text_items xs"
proof (induction node and kvs and xs rule: first_text_first_text_values_first_text_items.induct)
  case (1 kvs)
  show ?case
  proof (cases "get (str ''kind'') kvs = JStr (str ''text'')")
    case True
    then show ?thesis by (simp add: first_truthy_single text_of_def)
  next
    case False
    with 1 have "first_truthy (map text_of (text_nodes_values kvs)) = first_text_values kvs"
      by simp
    with False first_truthy_falsy[of "map text_of (text_nodes_values kvs)"]
    show ?thesis by auto
  qed
next
  case (2 xs)
  with first_truthy_falsy[of "map text_of (text_nodes_items xs)"] show ?case by auto
next
  case (8 kv kvs)
  show ?case
  proof (cases "truthy (first_text (snd kv))")
    case True
    with 8(1) show ?thesis by (simp add: first_truthy_append)
  next
    case False
    with 8 show ?thesis by (simp add: first_truthy_append)
  qed
next
  case (10 x xs)
  show ?case
  proof (cases "truthy (first_text x)")
    case True
    with 10(1) show ?thesis by (simp add: first_truthy_append)
  next
    case False
    with 10 show ?thesis by (simp add: first_truthy_append)
  qed
qed (simp_all add: first_truthy_Nil)

lemma first_text_spec:
  "first_text node =
     (if is_text_node node then text_of node
      else first_truthy (map text_of (text_nodes node)))"
proof (cases node)
  case (JDict kvs)
  then show ?thesis
    using first_text_nodes(2)[of kvs] by (simp add: is_text_node_def text_of_def)
next
  case (JList xs)
  then show ?thesis
    using first_text_nodes(3)[of xs] by (simp add: is_text_node_def)
qed (simp_all add: is_text_node_def first_truthy_Nil)

lemma text_node_leaf: "is_text_node node \<Longrightarrow> text_nodes node = [node]"
  by (cases node) (simp_all add: is_text_node_def)

lemma handle_artifact_text:
  assumes "artifact_bearing ev"
    and "make_artifact_event lib ev t = Inr au"
    and "first_text (artifact au) = JStr s"
  shows "handle_event lib t ev = Break [TaskArtifactUpdateEvent au, completed_event t s]"
  using assms
  by (simp add: handle_event_def artifact_bearing_def enqueue_completed_def
        new_agent_text_message_def completed_event_def)

text \<open>
  C7, as the code has it. The search is depth-first and takes every node of kind
  \<^verbatim>\<open>text\<close> as a leaf: it never looks inside one, so a node of kind \<^verbatim>\<open>text\<close> that lies within
  another (in its metadata, say) is not reached. For a structure that is not itself a
  node of kind \<^verbatim>\<open>text\<close>, the extracted text is the \<^verbatim>\<open>text\<close> of the first node reached by
  this search whose \<^verbatim>\<open>text\<close> is not empty (has a true truth value); the reached nodes
  with an empty or missing text are passed over, and the result is \<^verbatim>\<open>None\<close> when no
  node is left. A node of kind \<^verbatim>\<open>text\<close> at the top gives its own \<^verbatim>\<open>text\<close>. When an
  artifact-bearing helper event is accepted and the text extracted from its artifact
  is a string, that string is the message of the completed status that ends the relay.
\<close>

theorem first_text_depth_first:
  "first_text node =
     (if is_text_node node then text_of node
      else first_truthy (map text_of (text_nodes node))) \<and>
   (is_text_node node \<longrightarrow> text_nodes node = [node]) \<and>
   (artifact_bearing ev \<and> make_artifact_event lib ev t = Inr au \<and>
    first_text (artifact au) = JStr s \<longrightarrow>
      handle_event lib t ev = Break [TaskArtifactUpdateEvent au, completed_event t s])"
  using first_text_spec text_node_leaf handle_artifact_text by blast

text \<open>
  The first text part is empty and holds a node of kind \<^verbatim>\<open>text\<close> with the text \<^verbatim>\<open>inner\<close> in
  its metadata: the search reaches the two parts only, and the text is that of the
  second part.
\<close>

theorem first_text_depth_first_witness:
  "\<not> is_text_node nested_artifact \<and>
   map text_of (text_nodes nested_artifact) = [JStr [], JStr (str ''later'')] \<and>
   first_text nested_artifact = JStr (str ''later'') \<and>
   artifact_bearing [(str ''artifact'', nested_artifact)] \<and>
   handle_event demo_lib demo_task [(str ''artifact'', nested_artifact)] =
     Break [TaskArtifactUpdateEvent
              \<lparr>au_taskId = task_id demo_task, au_contextId = context_id demo_task,
               artifact = nested_artifact, append = False, lastChunk = True\<rparr>,
            completed_event demo_task (str ''later'')]"
proof -
  have n: "\<not> is_text_node nested_artifact"
    by (simp add: is_text_node_def nested_artifact_def get_def dict_get_def)
  have l: "map text_of (text_nodes nested_artifact) = [JStr [], JStr (str ''later'')]"
    by (simp add: nested_artifact_def get_def dict_get_def text_of_def)
  have a: "artifact_bearing [(str ''artifact'', nested_artifact)]"
    by (simp add: artifact_bearing_def has_key_def)
  have m: "make_artifact_event demo_lib [(str ''artifact'', nested_artifact)] demo_task =
     Inr \<lparr>au_taskId = task_id demo_task, au_contextId = context_id demo_task,
          artifact = nested_artifact, append = False, lastChunk = True\<rparr>"
    by (simp add: make_artifact_event_def dict_get_def demo_lib_def)
  note th = first_text_depth_first[of nested_artifact
      "[(str ''artifact'', nested_artifact)]" demo_lib demo_task
      "\<lparr>au_taskId = task_id demo_task, au_contextId = context_id demo_task,
        artifact = nested_artifact, append = False, lastChunk = True\<rparr>" "str ''later''"]
  from th n l
  have 1: "first_text nested_artifact = JStr (str ''later'')"
    by (simp add: first_truthy_def)
  from th a m 1
  have 2: "handle_event demo_lib demo_task [(str ''artifact'', nested_artifact)] =
     Break [TaskArtifactUpdateEvent
              \<lparr>au_taskId = task_id demo_task, au_contextId = context_id demo_task,
               artifact = nested_artifact, append = False, lastChunk = True\<rparr>,
            completed_event demo_task (str ''later'')]"
    by simp
  from n l 1 a 2 show ?thesis by blast
qed

text \<open>
  C7 as stated fails at an artifact whose first text part is empty: the first node of
  kind \<^verbatim>\<open>text\<close> in depth-first order holds the empty string, the extracted text is that
  of the second.
\<close>

theorem first_text_counterexample:
  "text_nodes two_part_artifact =
     [JDict [(str ''kind'', JStr (str ''text'')), (str ''text'', JStr [])],
      JDict [(str ''kind'', JStr (str ''text'')), (str ''text'', JStr (str ''hi''))]] \<and>
   text_of (hd (text_nodes two_part_artifact)) = JStr [] \<and>
   first_text two_part_artifact = JStr (str ''hi'')"
  by (simp add: two_part_artifact_def get_def dict_get_def text_of_def)

end
